theory Spec2Isabelle
  imports Main "HOL-Library.Sublist" "HOL-Library.AList"
begin

section \<open>Values exchanged with the forester executable\<close>

text \<open>
  Strings are lists of characters. The result of \<^verbatim>\<open>JSON.parse\<close> is a JSON value. Numbers
  are never inspected by the code, so their representation is left abstract. An object is
  given by its own enumerable properties in the order \<^verbatim>\<open>Object.entries\<close> lists them.
\<close>

typedecl js_number

datatype json =
    JNull
  | JBool bool
  | JNum js_number
  | JStr string
  | JArr "json list"
  | JObj "(string \<times> json) list"

datatype js_error = FileSystemError string | TypeError string

definition digit_char :: "nat \<Rightarrow> char" where
  "digit_char d = ''0123456789'' ! d"

fun show_nat :: "nat \<Rightarrow> string" where
  "show_nat n =
     (if n < 10 then [digit_char n] else show_nat (n div 10) @ [digit_char (n mod 10)])"

definition show_int :: "int \<Rightarrow> string" where
  "show_int i = (if i < 0 then ''-'' @ show_nat (nat (- i)) else show_nat (nat i))"

text \<open>Template-literal rendering of the \<^verbatim>\<open>code\<close> and \<^verbatim>\<open>signal\<close> arguments of the
  \<^verbatim>\<open>close\<close> event; \<^verbatim>\<open>null\<close> prints as the word null.\<close>

definition show_code :: "int option \<Rightarrow> string" where
  "show_code code = (case code of None \<Rightarrow> ''null'' | Some c \<Rightarrow> show_int c)"

definition show_signal :: "string option \<Rightarrow> string" where
  "show_signal signal = (case signal of None \<Rightarrow> ''null'' | Some s \<Rightarrow> s)"

text \<open>A string option in a condition: \<^verbatim>\<open>undefined\<close> and the empty string are falsy.\<close>

definition truthy :: "string option \<Rightarrow> bool" where
  "truthy v = (case v of None \<Rightarrow> False | Some s \<Rightarrow> s \<noteq> '''')"

section \<open>utils.ts: getRoot\<close>

text \<open>
  \<^verbatim>\<open>getRoot\<close> reads the workspace folders (here the list of their paths). With no folder it
  throws; with more than one it shows a warning and still returns the first.
\<close>

definition getRoot :: "string list \<Rightarrow> js_error + (string \<times> string list)" where
  "getRoot workspaceFolders =
     (case workspaceFolders of
        [] \<Rightarrow> Inl (FileSystemError ''vscode-forester doesn't support opening a single file.'')
      | folder # _ \<Rightarrow>
          Inr (folder,
               if length workspaceFolders \<noteq> 1
               then [''vscode-forester only supports opening one workspace folder.'']
               else []))"

section \<open>server.ts: queryForest\<close>

text \<open>
  What the spawned process and the timer deliver to the handlers registered by
  \<^verbatim>\<open>queryForest\<close>, in the order the event loop runs them.
\<close>

datatype proc_event =
    StdoutData string
  | StderrData string
  | TimerFired
  | ErrorEvent string
  | CloseEvent "int option" "string option"

text \<open>The pair the promise resolves with: \<^verbatim>\<open>[true, result]\<close> or \<^verbatim>\<open>[false, message]\<close>.\<close>

datatype settled = Resolved_true json | Resolved_false string

text \<open>The closure variables of \<^verbatim>\<open>queryForest\<close> and the effects it has on the editor.\<close>

record runner =
  stdout :: string
  stderr :: string
  killed :: bool
  shownWarnings :: "string list"
  shownErrors :: "string list"
  consoleLog :: "string list"

definition initial_runner :: "string list \<Rightarrow> runner" where
  "initial_runner ws =
     \<lparr>stdout = '''', stderr = '''', killed = False, shownWarnings = ws,
      shownErrors = [], consoleLog = []\<rparr>"

text \<open>
  The awaited promise. Data events append to the buffers; the first of timer, \<^verbatim>\<open>error\<close>
  and \<^verbatim>\<open>close\<close> resolves it, and the continuation runs before any later event. A run of
  events with none of the three leaves the promise pending: the result is \<open>None\<close>.
  \<^verbatim>\<open>JSON.parse\<close> is the parameter \<open>parse\<close>; \<open>None\<close> stands for its exception.
\<close>

fun await_promise ::
  "(string \<Rightarrow> json option) \<Rightarrow> proc_event list \<Rightarrow> runner \<Rightarrow> (settled \<times> runner) option" where
  "await_promise parse [] st = None"
| "await_promise parse (StdoutData chunk # es) st =
     await_promise parse es (st\<lparr>stdout := stdout st @ chunk\<rparr>)"
| "await_promise parse (StderrData chunk # es) st =
     await_promise parse es (st\<lparr>stderr := stderr st @ chunk\<rparr>)"
| "await_promise parse (TimerFired # es) st =
     Some (Resolved_false ''Forester timed out after 30s'', st\<lparr>killed := True\<rparr>)"
| "await_promise parse (ErrorEvent message # es) st =
     Some (Resolved_false message,
           st\<lparr>shownWarnings := shownWarnings st @ [''Forester: Critical error - '' @ message]\<rparr>)"
| "await_promise parse (CloseEvent code signal # es) st =
     Some (if signal \<noteq> None \<or> code \<noteq> Some 0
           then Resolved_false (''Forester: process exited with code '' @ show_code code
                                @ '' and signal '' @ show_signal signal @ ''.'')
           else (case parse (stdout st) of
                   Some result \<Rightarrow> Resolved_true result
                 | None \<Rightarrow>
                     Resolved_false (''Forester didn't return a valid JSON response:''
                                     @ [CHR 0x0A] @ stdout st)),
           st)"

subsection \<open>The two response formats\<close>

text \<open>
  Own enumerable properties, as object spread and \<^verbatim>\<open>Object.entries\<close> see them: the
  properties of an object, the indices of an array or of a string, nothing for the other
  primitives.
\<close>

fun own_props :: "json \<Rightarrow> (string \<times> json) list" where
  "own_props (JObj kvs) = kvs"
| "own_props (JArr xs) = zip (map show_nat [0..<length xs]) xs"
| "own_props (JStr s) = zip (map show_nat [0..<length s]) (map (\<lambda>c. JStr [c]) s)"
| "own_props v = []"

text \<open>\<^verbatim>\<open>Object.entries\<close> throws on \<^verbatim>\<open>null\<close>.\<close>

definition object_entries :: "json \<Rightarrow> js_error + (string \<times> json) list" where
  "object_entries v =
     (case v of
        JNull \<Rightarrow> Inl (TypeError ''Cannot convert undefined or null to object'')
      | _ \<Rightarrow> Inr (own_props v))"

text \<open>
  The object literal \<^verbatim>\<open>{ uri: id, ...entry }\<close>: the property \<^verbatim>\<open>uri\<close> is created first,
  then every own property of \<^verbatim>\<open>entry\<close> is set in turn, replacing the value of a property
  that exists and creating one that does not. Properties are kept in creation order;
  JavaScript lists index-like keys before the others, which the code never observes, since
  it reads the properties of an entry by name only.
\<close>

definition with_uri :: "string \<Rightarrow> json \<Rightarrow> json" where
  "with_uri id' entry =
     JObj (foldl (\<lambda>obj (k, v). AList.update k v obj) [(''uri'', JStr id')] (own_props entry))"

text \<open>Reading an own enumerable property by name; \<open>None\<close> is \<^verbatim>\<open>undefined\<close>.\<close>

definition get_prop :: "string \<Rightarrow> json \<Rightarrow> json option" where
  "get_prop k v = map_of (own_props v) k"

text \<open>Lines 72 to 77 of server.ts: the branch taken when the promise resolved with success.\<close>

definition normalize_response :: "json \<Rightarrow> js_error + json list" where
  "normalize_response dataOrErrorMessage =
     (case dataOrErrorMessage of
        JArr forest \<Rightarrow> Inr forest
      | _ \<Rightarrow>
          (case object_entries dataOrErrorMessage of
             Inl e \<Rightarrow> Inl e
           | Inr entries \<Rightarrow> Inr (map (\<lambda>(id', entry). with_uri id' entry) entries)))"

text \<open>Line 79 of server.ts.\<close>

definition errorMessage_of :: "string \<Rightarrow> runner \<Rightarrow> string" where
  "errorMessage_of dataOrErrorMessage st =
     dataOrErrorMessage
     @ (if stdout st \<noteq> '''' then [CHR 0x0A, CHR 0x0A] @ stdout st else '''')
     @ (if stderr st \<noteq> '''' then [CHR 0x0A, CHR 0x0A] @ stderr st else '''')"

text \<open>Lines 33 and 36: the executable and the arguments passed to \<^verbatim>\<open>spawn\<close>.\<close>

definition query_path :: "string option \<Rightarrow> string" where
  "query_path path_setting = (case path_setting of None \<Rightarrow> ''forester'' | Some p \<Rightarrow> p)"

definition query_args :: "string option \<Rightarrow> string list" where
  "query_args configfile = [''query'', ''all''] @ (if truthy configfile then [the configfile] else [])"

text \<open>
  \<^verbatim>\<open>queryForest\<close>. The settings \<^verbatim>\<open>forester.path\<close> and \<^verbatim>\<open>forester.config\<close> are the
  parameters \<open>path_setting\<close> and \<open>configfile\<close>. The call of \<^verbatim>\<open>child_process.spawn\<close> at
  line 37 is the parameter \<open>spawn\<close>: for a path, an argument list and a working directory
  it either throws (\<open>Inl\<close>) or starts a child, given by the events the handlers will see.
  The call is outside any \<^verbatim>\<open>try\<close>, so what it throws leaves \<^verbatim>\<open>queryForest\<close>.
  The result is \<open>None\<close> while the promise is pending, \<open>Some (Inl e)\<close> when the call throws
  \<open>e\<close>, and \<open>Some (Inr (forest, st))\<close> when it returns \<open>forest\<close>, with the final buffers
  and effects in \<open>st\<close>.
\<close>

definition queryForest ::
  "string list \<Rightarrow> string option \<Rightarrow> string option
   \<Rightarrow> (string \<Rightarrow> string list \<Rightarrow> string \<Rightarrow> js_error + proc_event list)
   \<Rightarrow> (string \<Rightarrow> json option)
   \<Rightarrow> (js_error + json list \<times> runner) option" where
  "queryForest workspaceFolders path_setting configfile spawn parse =
     (case getRoot workspaceFolders of
        Inl e \<Rightarrow> Some (Inl e)
      | Inr (cwd, ws) \<Rightarrow>
          (case spawn (query_path path_setting) (query_args configfile) cwd of
             Inl e \<Rightarrow> Some (Inl e)
           | Inr events \<Rightarrow>
               (case await_promise parse events (initial_runner ws) of
                  None \<Rightarrow> None
                | Some (Resolved_true dataOrErrorMessage, st) \<Rightarrow>
                    (case normalize_response dataOrErrorMessage of
                       Inl e \<Rightarrow> Some (Inl e)
                     | Inr forest \<Rightarrow> Some (Inr (forest, st)))
                | Some (Resolved_false dataOrErrorMessage, st) \<Rightarrow>
                    (let errorMessage = errorMessage_of dataOrErrorMessage st
                     in Some (Inr ([], st\<lparr>consoleLog := consoleLog st @ [errorMessage],
                                          shownErrors := shownErrors st
                                            @ [''Forester query failed: '' @ errorMessage]\<rparr>))))))"

text \<open>
  \<^verbatim>\<open>child_process.spawn\<close> of Node checks its arguments before it starts anything and
  throws a \<^verbatim>\<open>TypeError\<close> when the file name is the empty string; \<open>node_spawn events\<close> is
  a \<open>spawn\<close> that does so and otherwise starts a child that delivers \<open>events\<close>.
\<close>

definition node_spawn ::
  "proc_event list \<Rightarrow> string \<Rightarrow> string list \<Rightarrow> string \<Rightarrow> js_error + proc_event list" where
  "node_spawn events path args cwd =
     (if path = ''''
      then Inl (TypeError (''The argument 'file' cannot be empty. Received '' @ [CHR 0x27, CHR 0x27]))
      else Inr events)"

text \<open>
  A valid response in the old format maps each identifier to the remaining fields of its
  entry (the type \<^verbatim>\<open>Omit<ForesterTree, 'uri'>\<close> of line 45): no value has a property
  \<^verbatim>\<open>uri\<close> of its own.
\<close>

definition valid_old_format :: "(string \<times> json) list \<Rightarrow> bool" where
  "valid_old_format kvs = list_all (\<lambda>(id', entry). get_prop ''uri'' entry = None) kvs"

text \<open>
  What line 72 onwards reads once the promise has resolved: the resolved pair and the two
  buffers as they are at that moment.
\<close>

definition query_outcome ::
  "(string \<Rightarrow> json option) \<Rightarrow> proc_event list \<Rightarrow> (settled \<times> string \<times> string) option" where
  "query_outcome parse events =
     map_option (\<lambda>(s, st). (s, stdout st, stderr st))
       (await_promise parse events (initial_runner []))"

text \<open>Events that only deliver output, and the output they deliver.\<close>

fun is_data :: "proc_event \<Rightarrow> bool" where
  "is_data (StdoutData chunk) = True"
| "is_data (StderrData chunk) = True"
| "is_data e = False"

fun stdout_chunk :: "proc_event \<Rightarrow> string" where
  "stdout_chunk (StdoutData chunk) = chunk"
| "stdout_chunk e = ''''"

fun stderr_chunk :: "proc_event \<Rightarrow> string" where
  "stderr_chunk (StderrData chunk) = chunk"
| "stderr_chunk e = ''''"

definition stdoutSoFar :: "proc_event list \<Rightarrow> string" where
  "stdoutSoFar es = concat (map stdout_chunk es)"

definition stderrSoFar :: "proc_event list \<Rightarrow> string" where
  "stderrSoFar es = concat (map stderr_chunk es)"

text \<open>
  The failures of a query: the timer, a spawn error, a close with a signal or a non-zero
  code, and a clean close whose output does not parse.
\<close>

fun query_failure :: "(string \<Rightarrow> json option) \<Rightarrow> string \<Rightarrow> proc_event \<Rightarrow> bool" where
  "query_failure parse out TimerFired = True"
| "query_failure parse out (ErrorEvent message) = True"
| "query_failure parse out (CloseEvent code signal) =
     (signal \<noteq> None \<or> code \<noteq> Some 0 \<or> parse out = None)"
| "query_failure parse out e = False"

section \<open>server.ts: command\<close>

text \<open>
  The promisified \<^verbatim>\<open>execFile\<close> of Node either resolves with the captured
  \<^verbatim>\<open>{ stdout, stderr }\<close>, when the process exits with code 0, or rejects with an
  \<^verbatim>\<open>Error\<close> that carries the exit code and the output captured so far, when the process
  cannot be spawned, exits with another code or is killed.
\<close>

record exec_error =
  e_message :: string
  e_code :: "int option"
  e_stdout :: "string option"
  e_stderr :: "string option"

datatype exec_result = ExecResolved string string | ExecRejected exec_error

text \<open>\<^verbatim>\<open>Error.prototype.toString\<close> for an error whose name is \<^verbatim>\<open>Error\<close>.\<close>

definition toString :: "exec_error \<Rightarrow> string" where
  "toString e = (if e_message e = '''' then ''Error'' else ''Error: '' @ e_message e)"

record command_run =
  returned :: "string option"
  errorMessages :: "string list"
  warningMessages :: "string list"

text \<open>Lines 92 and 101: the executable and the arguments passed to \<^verbatim>\<open>execFile\<close>.\<close>

definition command_path :: "string option \<Rightarrow> string" where
  "command_path path_setting = (case path_setting of None \<Rightarrow> ''forester'' | Some p \<Rightarrow> p)"

definition command_args :: "string option \<Rightarrow> string list \<Rightarrow> string list" where
  "command_args configfile command' =
     (if truthy configfile then command' @ [the configfile] else command')"

text \<open>
  \<^verbatim>\<open>command\<close>. The settings \<^verbatim>\<open>forester.path\<close> and \<^verbatim>\<open>forester.config\<close> are the
  parameters \<open>path_setting\<close> and \<open>configfile\<close>; \<open>execFile\<close> is what the promisified
  call settles to for a path, an argument list and a working directory. The result is
  \<open>Inl e\<close> when \<^verbatim>\<open>getRoot\<close> throws \<open>e\<close>; otherwise \<open>returned\<close> is the value of the call,
  \<open>None\<close> for \<^verbatim>\<open>undefined\<close>, and \<open>errorMessages\<close> are the texts passed to
  \<^verbatim>\<open>showErrorMessage\<close>.
\<close>

definition command ::
  "string list \<Rightarrow> string option \<Rightarrow> string option
   \<Rightarrow> (string \<Rightarrow> string list \<Rightarrow> string \<Rightarrow> exec_result) \<Rightarrow> string list
   \<Rightarrow> js_error + command_run" where
  "command workspaceFolders path_setting configfile execFile command' =
     (let path = command_path path_setting
      in case getRoot workspaceFolders of
           Inl e \<Rightarrow> Inl e
         | Inr (root, ws) \<Rightarrow>
             (case execFile path (command_args configfile command') root of
                ExecResolved stdout' stderr' \<Rightarrow>
                  Inr \<lparr>returned = Some stdout',
                       errorMessages = (if stderr' \<noteq> '''' then [stderr'] else []),
                       warningMessages = ws\<rparr>
              | ExecRejected e \<Rightarrow>
                  (let errorMessage =
                         toString e
                         @ (if truthy (e_stdout e)
                            then [CHR 0x0A, CHR 0x0A] @ the (e_stdout e) else '''')
                         @ (if truthy (e_stderr e)
                            then [CHR 0x0A, CHR 0x0A] @ the (e_stderr e) else '''')
                   in Inr \<lparr>returned = None, errorMessages = [errorMessage],
                           warningMessages = ws\<rparr>)))"

section \<open>extension.ts: the forester.new command\<close>

text \<open>White space as \<^verbatim>\<open>String.prototype.trim\<close> removes it, among the characters up to 255.\<close>

definition is_space :: "char \<Rightarrow> bool" where
  "is_space c = (c \<in> set [CHR 0x09, CHR 0x0A, CHR 0x0B, CHR 0x0C, CHR 0x0D, CHR 0x20, CHR 0xA0])"

definition trim :: "string \<Rightarrow> string" where
  "trim s = rev (dropWhile is_space (rev (dropWhile is_space s)))"

text \<open>
  Lines 139 to 152 of the handler, once folder, prefix and template are known: the
  arguments of the call, the trimmed \<^verbatim>\<open>result\<close>, and the document that is opened when
  the result is not empty.
\<close>

definition new_args :: "string \<Rightarrow> string \<Rightarrow> string option \<Rightarrow> bool \<Rightarrow> string list" where
  "new_args folder prefix' template random =
     [''new'', ''--dest'', folder, ''--prefix'', prefix']
     @ (if truthy template then [''--template='' @ the template] else [])
     @ (if random then [''--random''] else [])"

record new_run =
  result :: "string option"
  opened :: "string option"
  run :: command_run

definition forester_new ::
  "string list \<Rightarrow> string option \<Rightarrow> string option
   \<Rightarrow> (string \<Rightarrow> string list \<Rightarrow> string \<Rightarrow> exec_result)
   \<Rightarrow> string \<Rightarrow> string \<Rightarrow> string option \<Rightarrow> bool \<Rightarrow> js_error + new_run" where
  "forester_new workspaceFolders path_setting configfile execFile folder prefix' template random =
     (case command workspaceFolders path_setting configfile execFile
             (new_args folder prefix' template random) of
        Inl e \<Rightarrow> Inl e
      | Inr r \<Rightarrow>
          (let result' = map_option trim (returned r)
           in Inr \<lparr>result = result',
                   opened = (if truthy result' then result' else None),
                   run = r\<rparr>))"

section \<open>extension.ts: suggest\<close>

record ForesterTree =
  title :: "string option"
  taxon :: "string option"
  tags :: "string list"
  route :: string
  metas :: "(string \<times> string) list"
  sourcePath :: string
  uri :: string

type_synonym Forest = "ForesterTree list"

text \<open>A position is a line and a character; a range is its start and its end.\<close>

type_synonym position = "nat \<times> nat"
type_synonym vs_range = "position \<times> position"

datatype completion_kind = Value

record completion_item =
  label :: string
  description :: string
  kind :: completion_kind
  item_range :: vs_range
  insertText :: string
  filterText :: string
  detail :: string
  documentation :: "string option"

text \<open>\<^verbatim>\<open>v ?? d\<close> on a string that may be \<^verbatim>\<open>null\<close>.\<close>

definition or_else :: "string option \<Rightarrow> string \<Rightarrow> string" where
  "or_else v d = (case v of None \<Rightarrow> d | Some s \<Rightarrow> s)"

text \<open>The body of the loop of \<^verbatim>\<open>suggest\<close>: the item built for one entry.\<close>

definition suggest_item :: "bool \<Rightarrow> vs_range \<Rightarrow> ForesterTree \<Rightarrow> completion_item" where
  "suggest_item showID range' entry =
     (let id' = uri entry in
      \<lparr>label = (case title entry of
                  None \<Rightarrow> ''['' @ id' @ '']''
                | Some t \<Rightarrow> if showID then ''['' @ id' @ ''] '' @ t else t),
       description = or_else (taxon entry) '''',
       kind = Value,
       item_range = range',
       insertText = id',
       filterText = id' @ '' '' @ or_else (title entry) '''' @ '' '' @ or_else (taxon entry) '''',
       detail = or_else (taxon entry) ''Tree'' @ '' ['' @ id' @ '']'',
       documentation = title entry\<rparr>)"

fun suggest_loop ::
  "bool \<Rightarrow> vs_range \<Rightarrow> Forest \<Rightarrow> completion_item list \<Rightarrow> completion_item list" where
  "suggest_loop showID range' [] results = results"
| "suggest_loop showID range' (entry # trees) results =
     suggest_loop showID range' trees (results @ [suggest_item showID range' entry])"

text \<open>
  The filter text as the specification words it: the identifier, then the title and the
  taxon where present, joined by single spaces.
\<close>

fun join_spaces :: "string list \<Rightarrow> string" where
  "join_spaces [] = ''''"
| "join_spaces [w] = w"
| "join_spaces (w # ws) = w @ '' '' @ join_spaces ws"

definition filterText_as_specified :: "ForesterTree \<Rightarrow> string" where
  "filterText_as_specified entry =
     join_spaces ([uri entry]
                  @ (case title entry of None \<Rightarrow> [] | Some t \<Rightarrow> [t])
                  @ (case taxon entry of None \<Rightarrow> [] | Some x \<Rightarrow> [x]))"

definition suggest :: "bool \<Rightarrow> Forest \<Rightarrow> vs_range \<Rightarrow> completion_item list" where
  "suggest showID trees range' = suggest_loop showID range' trees []"

section \<open>extension.ts: provideCompletionItems\<close>

text \<open>
  The regular expressions the pattern is built from: a literal text, the greedy repetition
  \<^verbatim>\<open>[^c]*\<close> of a negated one-character class, a numbered capture group, sequence,
  alternative, and \<^verbatim>\<open>$\<close>.
\<close>

datatype regex =
    Lit string
  | StarNot char
  | Group nat regex
  | Seq regex regex
  | Alt regex regex
  | EndOfInput

text \<open>Capture groups with the start and end index of what they matched (the flag d).\<close>

type_synonym captures = "(nat \<times> nat \<times> nat) list"

text \<open>
  Backtracking matching at index \<open>i\<close> with \<open>s\<close> the input from \<open>i\<close> on: all the ways the
  expression can match, in the order the engine tries them. The repetition tries the
  longest run first; an alternative tries its left side first.
\<close>

fun rmatch :: "regex \<Rightarrow> nat \<Rightarrow> string \<Rightarrow> captures \<Rightarrow> (nat \<times> string \<times> captures) list" where
  "rmatch (Lit l) i s caps =
     (if take (length l) s = l then [(i + length l, drop (length l) s, caps)] else [])"
| "rmatch (StarNot c) i s caps =
     map (\<lambda>n. (i + n, drop n s, caps)) (rev [0..<Suc (length (takeWhile (\<lambda>x. x \<noteq> c) s))])"
| "rmatch (Group g r) i s caps =
     map (\<lambda>(j, t, caps'). (j, t, AList.update g (i, j) caps')) (rmatch r i s caps)"
| "rmatch (Seq r1 r2) i s caps =
     concat (map (\<lambda>(j, t, caps'). rmatch r2 j t caps') (rmatch r1 i s caps))"
| "rmatch (Alt r1 r2) i s caps = rmatch r1 i s caps @ rmatch r2 i s caps"
| "rmatch EndOfInput i s caps = (if s = [] then [(i, s, caps)] else [])"

text \<open>
  \<^verbatim>\<open>exec\<close>: the first way to match at the leftmost index that has one. The result
  is the index of the match, its end and the capture groups; \<open>None\<close> is \<^verbatim>\<open>null\<close>.
\<close>

fun exec_from :: "regex \<Rightarrow> nat \<Rightarrow> string \<Rightarrow> (nat \<times> nat \<times> captures) option" where
  "exec_from re i [] =
     (case rmatch re i [] [] of [] \<Rightarrow> None | (j, t, caps) # _ \<Rightarrow> Some (i, j, caps))"
| "exec_from re i (c # cs) =
     (case rmatch re i (c # cs) [] of
        [] \<Rightarrow> exec_from re (Suc i) cs
      | (j, t, caps) # _ \<Rightarrow> Some (i, j, caps))"

definition exec :: "regex \<Rightarrow> string \<Rightarrow> (nat \<times> nat \<times> captures) option" where
  "exec re text = exec_from re 0 text"

definition backslash :: char where
  "backslash = CHR 0x5C"

text \<open>The four commands of the first alternative, each with its opening brace.\<close>

definition command_openers :: "string list" where
  "command_openers =
     [backslash # ''transclude{'', backslash # ''import{'', backslash # ''export{'',
      backslash # ''ref{'']"

text \<open>Line 81 of extension.ts.\<close>

definition tagPattern :: regex where
  "tagPattern =
     Alt (Seq (Alt (Lit (backslash # ''transclude{''))
              (Alt (Lit (backslash # ''import{''))
              (Alt (Lit (backslash # ''export{''))
                   (Lit (backslash # ''ref{'')))))
          (Seq (Group 1 (StarNot CHR ''}'')) EndOfInput))
    (Alt (Seq (Lit ''['') (Seq (StarNot CHR ''['') (Seq (Lit '']('')
          (Seq (Group 2 (StarNot CHR '')'')) EndOfInput))))
         (Seq (Lit ''[['') (Seq (Group 3 (StarNot CHR '']'')) EndOfInput)))"

text \<open>Whether the pattern has a match that starts at index \<open>k\<close> of the text.\<close>

definition matches_at :: "string \<Rightarrow> nat \<Rightarrow> bool" where
  "matches_at text k = (rmatch tagPattern k (drop k text) [] \<noteq> [])"

text \<open>
  Lines 85 to 95: \<open>None\<close> when the pattern does not match and the provider returns at
  once, otherwise the start \<^verbatim>\<open>ix\<close> of the first capture group that took part.
\<close>

definition match_ix :: "string \<Rightarrow> nat \<Rightarrow> nat option" where
  "match_ix text character =
     (case exec tagPattern text of
        None \<Rightarrow> None
      | Some (index, end', indices) \<Rightarrow>
          Some (case map_of indices 1 of
                  Some (start, _) \<Rightarrow> start
                | None \<Rightarrow>
                    (case map_of indices 2 of
                       Some (start, _) \<Rightarrow> start
                     | None \<Rightarrow>
                         (case map_of indices 3 of
                            Some (start, _) \<Rightarrow> start
                          | None \<Rightarrow> character))))"

text \<open>Calls made to the forest cache, with the value of \<^verbatim>\<open>fastReturnStale\<close>.\<close>

datatype cache_call = GetForest bool

text \<open>
  \<^verbatim>\<open>provideCompletionItems\<close> for a cursor at \<open>pos\<close> in a line \<open>lineText\<close>. The forest
  cache is not part of the sources: \<open>forest\<close> is what \<^verbatim>\<open>getForest\<close> answers when it is
  called. The result is the list of items and the calls made to the cache.
\<close>

definition provideCompletionItems ::
  "bool \<Rightarrow> Forest \<Rightarrow> string \<Rightarrow> position \<Rightarrow> completion_item list \<times> cache_call list" where
  "provideCompletionItems showID forest lineText pos =
     (let text = take (snd pos) lineText
      in case match_ix text (snd pos) of
           None \<Rightarrow> ([], [])
         | Some ix \<Rightarrow>
             (let range' = ((fst pos, ix), pos)
              in (suggest showID forest range', [GetForest True])))"

text \<open>The characters of a line that a range within it covers.\<close>

definition covered :: "string \<Rightarrow> vs_range \<Rightarrow> string" where
  "covered lineText range' =
     take (snd (snd range') - snd (fst range')) (drop (snd (fst range')) lineText)"

text \<open>The range every item of a non-empty answer carries; \<open>None\<close> for an empty answer.\<close>

definition match_range :: "string \<Rightarrow> position \<Rightarrow> vs_range option" where
  "match_range lineText pos =
     map_option (\<lambda>ix. ((fst pos, ix), pos)) (match_ix (take (snd pos) lineText) (snd pos))"

subsection \<open>The trigger syntaxes in the words of the specification\<close>

text \<open>
  The three syntaxes as the specification describes them, for a text that starts at the
  opening delimiter and ends at the cursor: one of the four commands and its brace with no
  closing brace after it; a bracketed link text without an inner opening bracket, then an
  opening parenthesis with no closing parenthesis after it; two opening brackets with no
  closing bracket after them. A trigger is in progress in a line prefix when one of them
  holds for the text from some index to the cursor.
\<close>

definition command_trigger :: "string \<Rightarrow> bool" where
  "command_trigger s =
     (\<exists>opener p. opener \<in> set command_openers \<and> s = opener @ p \<and> CHR ''}'' \<notin> set p)"

definition markdown_trigger :: "string \<Rightarrow> bool" where
  "markdown_trigger s =
     (\<exists>a p. s = ''['' @ a @ '']('' @ p \<and> CHR ''['' \<notin> set a \<and> CHR '')'' \<notin> set p)"

definition wiki_trigger :: "string \<Rightarrow> bool" where
  "wiki_trigger s = (\<exists>p. s = ''[['' @ p \<and> CHR '']'' \<notin> set p)"

definition trigger_in_progress :: "string \<Rightarrow> bool" where
  "trigger_in_progress text =
     (\<exists>pre s. text = pre @ s \<and> (command_trigger s \<or> markdown_trigger s \<or> wiki_trigger s))"

section \<open>Properties of queryForest\<close>

lemma await_promise_data:
  "list_all is_data pre \<Longrightarrow>
   await_promise parse (pre @ es) st =
     await_promise parse es
       (st\<lparr>stdout := stdout st @ stdoutSoFar pre, stderr := stderr st @ stderrSoFar pre\<rparr>)"
proof (induction pre arbitrary: st)
  case Nil
  show ?case by (simp add: stdoutSoFar_def stderrSoFar_def)
next
  case (Cons e pre)
  then have rest: "list_all is_data pre" by simp
  from Cons.prems show ?case
    by (cases e) (simp_all add: Cons.IH [OF rest] stdoutSoFar_def stderrSoFar_def)
qed

lemma await_promise_failure:
  assumes "list_all is_data pre" and "query_failure parse (stdoutSoFar pre) e"
  shows "\<exists>message st'. await_promise parse (pre @ e # rest) (initial_runner ws)
           = Some (Resolved_false message, st')"
proof -
  have "await_promise parse (pre @ e # rest) (initial_runner ws) =
        await_promise parse (e # rest)
          ((initial_runner ws)\<lparr>stdout := stdout (initial_runner ws) @ stdoutSoFar pre,
                                stderr := stderr (initial_runner ws) @ stderrSoFar pre\<rparr>)"
    using assms(1) by (rule await_promise_data)
  with assms(2) show ?thesis
    by (cases e) (auto simp: initial_runner_def split: option.splits)
qed

lemma initial_runner_fields:
  "stdout (initial_runner w) = ''''" "stderr (initial_runner w) = ''''"
  "killed (initial_runner w) = False" "shownWarnings (initial_runner w) = w"
  "shownErrors (initial_runner w) = []" "consoleLog (initial_runner w) = []"
  by (simp_all add: initial_runner_def)

lemma queryForest_spawn_throws:
  assumes "workspaceFolders = root # others"
    and "spawn (query_path path_setting) (query_args configfile) root = Inl e"
  shows "queryForest workspaceFolders path_setting configfile spawn parse = Some (Inl e)"
  using assms by (simp add: queryForest_def getRoot_def)

lemma queryForest_event_failure_empty:
  assumes "workspaceFolders = root # others"
    and "spawn (query_path path_setting) (query_args configfile) root = Inr (pre @ e # rest)"
    and "list_all is_data pre"
    and "query_failure parse (stdoutSoFar pre) e"
  shows "map_option (map_sum id fst)
           (queryForest workspaceFolders path_setting configfile spawn parse)
         = Some (Inr [])"
proof -
  obtain message st' where
    "await_promise parse (pre @ e # rest)
       (initial_runner (if length workspaceFolders \<noteq> 1
          then [''vscode-forester only supports opening one workspace folder.''] else []))
     = Some (Resolved_false message, st')"
    using await_promise_failure [OF assms(3,4)] by blast
  then show ?thesis
    using assms(1,2) by (simp add: queryForest_def getRoot_def Let_def)
qed

text \<open>
  C1 (defect of the code). With a workspace open and the setting \<^verbatim>\<open>forester.path\<close> the
  empty string, \<^verbatim>\<open>spawn\<close> throws before any handler is registered, and
  \<^verbatim>\<open>queryForest\<close> throws that error instead of returning the empty forest. Failures
  that reach the handlers (timer, \<^verbatim>\<open>error\<close> event, close with a signal or a non-zero
  code, unparsable output) do give the empty forest: \<open>queryForest_event_failure_empty\<close>.
\<close>

theorem queryForest_empty_path_throws:
  "queryForest [''/forest''] (Some '''') configfile (node_spawn events) parse =
     Some (Inl (TypeError (''The argument 'file' cannot be empty. Received ''
                           @ [CHR 0x27, CHR 0x27])))"
  by (simp add: queryForest_def getRoot_def query_path_def node_spawn_def)

lemma query_outcome_data:
  assumes "list_all is_data pre"
  shows "query_outcome parse (pre @ es) =
         map_option (\<lambda>(s, st). (s, stdout st, stderr st))
           (await_promise parse es
              ((initial_runner [])\<lparr>stdout := stdoutSoFar pre, stderr := stderrSoFar pre\<rparr>))"
  using await_promise_data [OF assms, of parse es "initial_runner []"]
  by (simp add: query_outcome_def initial_runner_def)

text \<open>
  C2 (as amended). If only output has arrived when the 30000 ms timer fires, the process is
  killed and the promise resolves with the failure message
  \<open>''Forester timed out after 30s''\<close>, which contains the text "timed out after 30s";
  the two buffers hold the output captured so far. \<^verbatim>\<open>queryForest\<close> then returns the
  empty forest and shows one error: the message followed by each buffer that is not empty.
\<close>

theorem queryForest_timeout:
  assumes "list_all is_data pre"
    and "workspaceFolders = root # others"
    and "spawn (query_path path_setting) (query_args configfile) root
         = Inr (pre @ TimerFired # rest)"
  shows "await_promise parse (pre @ TimerFired # rest) (initial_runner ws) =
           Some (Resolved_false ''Forester timed out after 30s'',
                 (initial_runner ws)\<lparr>stdout := stdoutSoFar pre, stderr := stderrSoFar pre,
                                       killed := True\<rparr>)
         \<and> query_outcome parse (pre @ TimerFired # rest) =
           Some (Resolved_false ''Forester timed out after 30s'',
                 stdoutSoFar pre, stderrSoFar pre)
         \<and> sublist ''timed out after 30s'' ''Forester timed out after 30s''
         \<and> map_option
             (map_sum id (\<lambda>(forest, st). (forest, killed st, stdout st, stderr st, shownErrors st)))
             (queryForest workspaceFolders path_setting configfile spawn parse) =
           Some (Inr ([], True, stdoutSoFar pre, stderrSoFar pre,
             [''Forester query failed: Forester timed out after 30s''
              @ (if stdoutSoFar pre \<noteq> '''' then [CHR 0x0A, CHR 0x0A] @ stdoutSoFar pre else '''')
              @ (if stderrSoFar pre \<noteq> '''' then [CHR 0x0A, CHR 0x0A] @ stderrSoFar pre else '''')]))"
proof -
  have contains: "sublist ''timed out after 30s'' ''Forester timed out after 30s''"
  proof -
    have "sublist ''timed out after 30s'' (''Forester '' @ ''timed out after 30s'' @ [])"
      by (rule sublist_appendI)
    then show ?thesis by simp
  qed
  have settled: "await_promise parse (pre @ TimerFired # rest) (initial_runner w) =
           Some (Resolved_false ''Forester timed out after 30s'',
                 (initial_runner w)\<lparr>stdout := stdoutSoFar pre, stderr := stderrSoFar pre,
                                      killed := True\<rparr>)" for w
    using await_promise_data [OF assms(1), of parse "TimerFired # rest" "initial_runner w"]
    by (simp add: initial_runner_def)
  have outcome: "query_outcome parse (pre @ TimerFired # rest) =
           Some (Resolved_false ''Forester timed out after 30s'',
                 stdoutSoFar pre, stderrSoFar pre)"
    by (simp add: query_outcome_def settled)
  have whole: "map_option
             (map_sum id (\<lambda>(forest, st). (forest, killed st, stdout st, stderr st, shownErrors st)))
             (queryForest workspaceFolders path_setting configfile spawn parse) =
           Some (Inr ([], True, stdoutSoFar pre, stderrSoFar pre,
             [''Forester query failed: Forester timed out after 30s''
              @ (if stdoutSoFar pre \<noteq> '''' then [CHR 0x0A, CHR 0x0A] @ stdoutSoFar pre else '''')
              @ (if stderrSoFar pre \<noteq> '''' then [CHR 0x0A, CHR 0x0A] @ stderrSoFar pre else '''')]))"
    using assms(2,3)
    by (simp add: queryForest_def getRoot_def settled Let_def errorMessage_of_def
        initial_runner_fields)
  from settled [of ws] outcome contains whole show ?thesis by blast
qed

theorem queryForest_timeout_witness:
  "list_all is_data [StderrData ''warn'', StdoutData ''['']
   \<and> map_option
       (map_sum id (\<lambda>(forest, st). (forest, killed st, stdout st, stderr st, shownErrors st)))
       (queryForest [''/forest''] None None
          (\<lambda>path args cwd. Inr ([StderrData ''warn'', StdoutData ''[''] @ TimerFired # []))
          (\<lambda>s. None)) =
     Some (Inr ([], True, ''['', ''warn'',
       [''Forester query failed: Forester timed out after 30s'' @ [CHR 0x0A, CHR 0x0A] @ ''[''
        @ [CHR 0x0A, CHR 0x0A] @ ''warn'']))"
proof -
  have h1: "list_all is_data [StderrData ''warn'', StdoutData ''['']" by simp
  have h2: "[''/forest''] = ''/forest'' # []" by simp
  have h3: "(\<lambda>path args cwd. Inr ([StderrData ''warn'', StdoutData ''[''] @ TimerFired # []))
              (query_path None) (query_args None) ''/forest''
            = (Inr ([StderrData ''warn'', StdoutData ''[''] @ TimerFired # [])
               :: js_error + proc_event list)"
    by simp
  from queryForest_timeout [OF h1 h2 h3, of "\<lambda>s. None" "[]"] h1 show ?thesis
    by (simp add: stdoutSoFar_def stderrSoFar_def)
qed

theorem queryForest_timeout_counterexample:
  "query_outcome (\<lambda>s. None) [StdoutData ''partial'', TimerFired] =
     Some (Resolved_false ''Forester timed out after 30s'', ''partial'', '''')
   \<and> ''partial'' \<noteq> ''''
   \<and> map_option (map_sum id (\<lambda>(forest, st). (forest, killed st, stdout st, shownErrors st)))
       (queryForest [''/forest''] None None
          (\<lambda>path args cwd. Inr [StdoutData ''partial'', TimerFired]) (\<lambda>s. None)) =
     Some (Inr ([], True, ''partial'',
       [''Forester query failed: Forester timed out after 30s'' @ [CHR 0x0A, CHR 0x0A]
        @ ''partial'']))"
  by (simp add: query_outcome_def queryForest_def getRoot_def initial_runner_def
      errorMessage_of_def Let_def)

text \<open>
  C6 (as amended). If only output has arrived when the process closes with a signal or with
  a code other than 0, the promise resolves with the failure message
  \<open>Forester: process exited with code <code> and signal <signal>.\<close>, where an absent
  code or signal is written null; the message contains the text
  "process exited with code <code> and signal <signal>" and the buffers hold the output
  captured so far. \<^verbatim>\<open>queryForest\<close> then returns the empty forest and shows the message
  followed by each buffer that is not empty. For code 2 without a signal the message is
  \<open>Forester: process exited with code 2 and signal null.\<close> and for a process killed by
  SIGKILL it is \<open>Forester: process exited with code null and signal SIGKILL.\<close>
\<close>

theorem queryForest_exit_failure:
  assumes "list_all is_data pre"
    and "signal \<noteq> None \<or> code \<noteq> Some 0"
    and "workspaceFolders = root # others"
    and "spawn (query_path path_setting) (query_args configfile) root
         = Inr (pre @ CloseEvent code signal # rest)"
  shows "await_promise parse (pre @ CloseEvent code signal # rest) (initial_runner ws) =
           Some (Resolved_false
                   (''Forester: process exited with code ''
                    @ (case code of None \<Rightarrow> ''null'' | Some c \<Rightarrow> show_int c)
                    @ '' and signal '' @ (case signal of None \<Rightarrow> ''null'' | Some s \<Rightarrow> s)
                    @ ''.''),
                 (initial_runner ws)\<lparr>stdout := stdoutSoFar pre, stderr := stderrSoFar pre\<rparr>)
         \<and> query_outcome parse (pre @ CloseEvent code signal # rest) =
           Some (Resolved_false (''Forester: process exited with code '' @ show_code code
                                 @ '' and signal '' @ show_signal signal @ ''.''),
                 stdoutSoFar pre, stderrSoFar pre)
         \<and> sublist (''process exited with code '' @ show_code code
                     @ '' and signal '' @ show_signal signal)
             (''Forester: process exited with code '' @ show_code code
              @ '' and signal '' @ show_signal signal @ ''.'')
         \<and> sublist (show_code code)
             (''Forester: process exited with code '' @ show_code code
              @ '' and signal '' @ show_signal signal @ ''.'')
         \<and> show_code (Some 2) = ''2''
         \<and> map_option
             (map_sum id (\<lambda>(forest, st). (forest, stdout st, stderr st, shownErrors st)))
             (queryForest workspaceFolders path_setting configfile spawn parse) =
           Some (Inr ([], stdoutSoFar pre, stderrSoFar pre,
             [''Forester query failed: Forester: process exited with code ''
              @ (case code of None \<Rightarrow> ''null'' | Some c \<Rightarrow> show_int c)
              @ '' and signal '' @ (case signal of None \<Rightarrow> ''null'' | Some s \<Rightarrow> s) @ ''.''
              @ (if stdoutSoFar pre \<noteq> '''' then [CHR 0x0A, CHR 0x0A] @ stdoutSoFar pre else '''')
              @ (if stderrSoFar pre \<noteq> '''' then [CHR 0x0A, CHR 0x0A] @ stderrSoFar pre else '''')]))
         \<and> await_promise parse [CloseEvent (Some 2) None] (initial_runner []) =
           Some (Resolved_false ''Forester: process exited with code 2 and signal null.'',
                 initial_runner [])
         \<and> await_promise parse [CloseEvent None (Some ''SIGKILL'')] (initial_runner []) =
           Some (Resolved_false ''Forester: process exited with code null and signal SIGKILL.'',
                 initial_runner [])"
proof -
  let ?body = "''process exited with code '' @ show_code code
               @ '' and signal '' @ show_signal signal"
  have settled: "await_promise parse (pre @ CloseEvent code signal # rest) (initial_runner w) =
           Some (Resolved_false
                   (''Forester: process exited with code ''
                    @ (case code of None \<Rightarrow> ''null'' | Some c \<Rightarrow> show_int c)
                    @ '' and signal '' @ (case signal of None \<Rightarrow> ''null'' | Some s \<Rightarrow> s)
                    @ ''.''),
                 (initial_runner w)\<lparr>stdout := stdoutSoFar pre, stderr := stderrSoFar pre\<rparr>)" for w
    using assms(2)
      await_promise_data [OF assms(1), of parse "CloseEvent code signal # rest" "initial_runner w"]
    by (auto simp: initial_runner_def show_code_def show_signal_def)
  have outcome: "query_outcome parse (pre @ CloseEvent code signal # rest) =
           Some (Resolved_false (''Forester: process exited with code '' @ show_code code
                                 @ '' and signal '' @ show_signal signal @ ''.''),
                 stdoutSoFar pre, stderrSoFar pre)"
    by (simp add: query_outcome_def settled show_code_def show_signal_def)
  have "sublist ?body (''Forester: '' @ ?body @ ''.'')"
    by (rule sublist_appendI)
  then have whole: "sublist ?body
             (''Forester: process exited with code '' @ show_code code
              @ '' and signal '' @ show_signal signal @ ''.'')"
    by simp
  have "sublist (show_code code)
          (''Forester: process exited with code '' @ show_code code
           @ ('' and signal '' @ show_signal signal @ ''.''))"
    by (rule sublist_appendI)
  then have code_shown: "sublist (show_code code)
             (''Forester: process exited with code '' @ show_code code
              @ '' and signal '' @ show_signal signal @ ''.'')"
    by simp
  have two: "show_code (Some 2) = ''2''"
    by (simp add: show_code_def show_int_def digit_char_def)
  have shown: "map_option
             (map_sum id (\<lambda>(forest, st). (forest, stdout st, stderr st, shownErrors st)))
             (queryForest workspaceFolders path_setting configfile spawn parse) =
           Some (Inr ([], stdoutSoFar pre, stderrSoFar pre,
             [''Forester query failed: Forester: process exited with code ''
              @ (case code of None \<Rightarrow> ''null'' | Some c \<Rightarrow> show_int c)
              @ '' and signal '' @ (case signal of None \<Rightarrow> ''null'' | Some s \<Rightarrow> s) @ ''.''
              @ (if stdoutSoFar pre \<noteq> '''' then [CHR 0x0A, CHR 0x0A] @ stdoutSoFar pre else '''')
              @ (if stderrSoFar pre \<noteq> '''' then [CHR 0x0A, CHR 0x0A] @ stderrSoFar pre else '''')]))"
    using assms(3,4)
    by (simp add: queryForest_def getRoot_def settled Let_def errorMessage_of_def
        initial_runner_fields)
  have ex2: "await_promise parse [CloseEvent (Some 2) None] (initial_runner []) =
           Some (Resolved_false ''Forester: process exited with code 2 and signal null.'',
                 initial_runner [])"
    by (simp add: show_code_def show_signal_def show_int_def digit_char_def)
  have exk: "await_promise parse [CloseEvent None (Some ''SIGKILL'')] (initial_runner []) =
           Some (Resolved_false ''Forester: process exited with code null and signal SIGKILL.'',
                 initial_runner [])"
    by (simp add: show_code_def show_signal_def)
  from settled [of ws] outcome whole code_shown two shown ex2 exk show ?thesis by blast
qed

theorem queryForest_exit_failure_witness:
  "list_all is_data [StdoutData ''out'', StderrData ''err'']
   \<and> map_option
       (map_sum id (\<lambda>(forest, st). (forest, stdout st, stderr st, shownErrors st)))
       (queryForest [''/forest''] None None
          (\<lambda>path args cwd. Inr ([StdoutData ''out'', StderrData ''err'']
                                  @ CloseEvent None (Some ''SIGKILL'') # []))
          (\<lambda>s. None)) =
     Some (Inr ([], ''out'', ''err'',
       [''Forester query failed: Forester: process exited with code null and signal SIGKILL.''
        @ [CHR 0x0A, CHR 0x0A] @ ''out'' @ [CHR 0x0A, CHR 0x0A] @ ''err'']))"
proof -
  have h1: "list_all is_data [StdoutData ''out'', StderrData ''err'']" by simp
  have h2: "Some ''SIGKILL'' \<noteq> None \<or> (None :: int option) \<noteq> Some 0" by simp
  have h3: "[''/forest''] = ''/forest'' # []" by simp
  have h4: "(\<lambda>path args cwd. Inr ([StdoutData ''out'', StderrData ''err'']
                                  @ CloseEvent None (Some ''SIGKILL'') # []))
              (query_path None) (query_args None) ''/forest''
            = (Inr ([StdoutData ''out'', StderrData ''err'']
                    @ CloseEvent None (Some ''SIGKILL'') # [])
               :: js_error + proc_event list)"
    by simp
  from queryForest_exit_failure [OF h1 h2 h3 h4, of "\<lambda>s. None" "[]"] h1 show ?thesis
    by (simp add: stdoutSoFar_def stderrSoFar_def)
qed

theorem queryForest_exit_failure_counterexample:
  "await_promise (\<lambda>s. None) [CloseEvent (Some 2) None] (initial_runner []) =
     Some (Resolved_false ''Forester: process exited with code 2 and signal null.'',
           initial_runner [])
   \<and> ''Forester: process exited with code 2 and signal null.''
     \<noteq> ''process exited with code 2 and signal null''
   \<and> map_option (map_sum id (\<lambda>(forest, st). (forest, shownErrors st)))
       (queryForest [''/forest''] None None
          (\<lambda>path args cwd. Inr [CloseEvent (Some 2) None]) (\<lambda>s. None)) =
     Some (Inr ([],
       [''Forester query failed: Forester: process exited with code 2 and signal null.'']))"
  by (simp add: queryForest_def getRoot_def initial_runner_def errorMessage_of_def Let_def
      show_code_def show_signal_def show_int_def digit_char_def)

section \<open>Properties of the response formats\<close>

lemma foldl_update_other:
  "k \<notin> fst ` set kvs \<Longrightarrow>
   map_of (foldl (\<lambda>obj (k', v). AList.update k' v obj) obj kvs) k = map_of obj k"
proof (induction kvs arbitrary: obj)
  case Nil
  show ?case by simp
next
  case (Cons kv kvs)
  obtain k' v where kv: "kv = (k', v)" by (cases kv)
  from Cons.prems kv have "k \<noteq> k'" and "k \<notin> fst ` set kvs" by auto
  then show ?case
    by (simp add: kv Cons.IH update_conv')
qed

lemma with_uri_uri:
  "get_prop ''uri'' entry = None \<Longrightarrow> get_prop ''uri'' (with_uri k entry) = Some (JStr k)"
  by (simp add: get_prop_def with_uri_def foldl_update_other map_of_eq_None_iff)

text \<open>
  C3. For every valid object-shaped response, normalization returns one entry per key, in
  the order of the keys and as many entries as keys, and the \<^verbatim>\<open>uri\<close> of each entry is its
  key. This is what \<^verbatim>\<open>queryForest\<close> returns when the process closes cleanly and its
  output parses to that response.
\<close>

theorem normalize_object:
  assumes "valid_old_format kvs"
  shows "normalize_response (JObj kvs) = Inr (map (\<lambda>(id', entry). with_uri id' entry) kvs)
         \<and> length (map (\<lambda>(id', entry). with_uri id' entry) kvs) = length kvs
         \<and> map (get_prop ''uri'') (map (\<lambda>(id', entry). with_uri id' entry) kvs)
           = map (\<lambda>(id', entry). Some (JStr id')) kvs
         \<and> (workspaceFolders = root # others
            \<and> spawn (query_path path_setting) (query_args configfile) root
              = Inr (pre @ CloseEvent (Some 0) None # rest)
            \<and> list_all is_data pre \<and> parse (stdoutSoFar pre) = Some (JObj kvs)
            \<longrightarrow> map_option (map_sum id fst)
                  (queryForest workspaceFolders path_setting configfile spawn parse)
                = Some (Inr (map (\<lambda>(id', entry). with_uri id' entry) kvs)))"
proof -
  have uris: "map (get_prop ''uri'') (map (\<lambda>(id', entry). with_uri id' entry) kvs)
        = map (\<lambda>(id', entry). Some (JStr id')) kvs"
    using assms unfolding valid_old_format_def
    by (induction kvs) (auto simp: with_uri_uri)
  have norm: "normalize_response (JObj kvs) = Inr (map (\<lambda>(id', entry). with_uri id' entry) kvs)"
    by (simp add: normalize_response_def object_entries_def)
  have query: "map_option (map_sum id fst)
                  (queryForest workspaceFolders path_setting configfile spawn parse)
                = Some (Inr (map (\<lambda>(id', entry). with_uri id' entry) kvs))"
    if ws: "workspaceFolders = root # others"
      and sp: "spawn (query_path path_setting) (query_args configfile) root
               = Inr (pre @ CloseEvent (Some 0) None # rest)"
      and data: "list_all is_data pre"
      and parsed: "parse (stdoutSoFar pre) = Some (JObj kvs)"
  proof -
    have "await_promise parse (pre @ CloseEvent (Some 0) None # rest) (initial_runner w) =
            Some (Resolved_true (JObj kvs),
                  (initial_runner w)\<lparr>stdout := stdoutSoFar pre, stderr := stderrSoFar pre\<rparr>)" for w
      using parsed
        await_promise_data [OF data, of parse "CloseEvent (Some 0) None # rest" "initial_runner w"]
      by (simp add: initial_runner_def)
    then show ?thesis
      using ws sp by (simp add: queryForest_def getRoot_def norm)
  qed
  from uris norm query show ?thesis by simp
qed

theorem normalize_object_witness:
  "valid_old_format
     [(''b'', JObj [(''title'', JStr ''B''), (''taxon'', JNull)]), (''a'', JObj [(''title'', JNull)])]
   \<and> normalize_response
       (JObj [(''b'', JObj [(''title'', JStr ''B''), (''taxon'', JNull)]),
              (''a'', JObj [(''title'', JNull)])])
     = Inr [JObj [(''uri'', JStr ''b''), (''title'', JStr ''B''), (''taxon'', JNull)],
            JObj [(''uri'', JStr ''a''), (''title'', JNull)]]
   \<and> map_option (map_sum id fst)
       (queryForest [''/forest''] None None
          (\<lambda>path args cwd. Inr ([StdoutData ''{}''] @ CloseEvent (Some 0) None # []))
          (\<lambda>s. Some (JObj [(''b'', JObj [(''title'', JStr ''B''), (''taxon'', JNull)]),
                            (''a'', JObj [(''title'', JNull)])])))
     = Some (Inr [JObj [(''uri'', JStr ''b''), (''title'', JStr ''B''), (''taxon'', JNull)],
                  JObj [(''uri'', JStr ''a''), (''title'', JNull)]])"
proof -
  let ?kvs = "[(''b'', JObj [(''title'', JStr ''B''), (''taxon'', JNull)]),
               (''a'', JObj [(''title'', JNull)])]"
  have h: "valid_old_format ?kvs"
    by (simp add: valid_old_format_def get_prop_def)
  have entries: "map (\<lambda>(id', entry). with_uri id' entry) ?kvs =
        [JObj [(''uri'', JStr ''b''), (''title'', JStr ''B''), (''taxon'', JNull)],
         JObj [(''uri'', JStr ''a''), (''title'', JNull)]]"
    by (simp add: with_uri_def)
  from normalize_object [OF h, of "[''/forest'']" "''/forest''" "[]"
      "\<lambda>path args cwd. Inr ([StdoutData ''{}''] @ CloseEvent (Some 0) None # [])"
      None None "[StdoutData ''{}'']" "[]" "\<lambda>s. Some (JObj ?kvs)"]
  show ?thesis
    unfolding entries using h by simp
qed

section \<open>Properties of command\<close>

lemma toString_nonempty: "toString e \<noteq> ''''"
  by (simp add: toString_def)

text \<open>
  C9. In an open workspace, when the process of \<^verbatim>\<open>forester new\<close> exits with code 0 and
  empty standard error, \<^verbatim>\<open>command\<close> returns its standard output, the handler's result is
  that output trimmed, and no error is shown. When the process fails (exit code 1, say),
  \<^verbatim>\<open>command\<close> returns \<^verbatim>\<open>undefined\<close>, the handler has no result and opens nothing,
  and one error message is shown: the text of the exception followed by each of the
  captured outputs that is not empty; this message is never empty.
\<close>

theorem command_executor:
  assumes "workspaceFolders = root # others"
  shows "(execFile (command_path path_setting)
            (command_args configfile (new_args folder prefix' template random)) root
          = ExecResolved out '''' \<longrightarrow>
          map_sum id (\<lambda>r. (result r, returned (run r), errorMessages (run r)))
            (forester_new workspaceFolders path_setting configfile execFile
               folder prefix' template random)
          = Inr (Some (trim out), Some out, []))
       \<and> (execFile (command_path path_setting)
            (command_args configfile (new_args folder prefix' template random)) root
          = ExecRejected e \<longrightarrow>
          map_sum id (\<lambda>r. (result r, opened r, returned (run r), errorMessages (run r)))
            (forester_new workspaceFolders path_setting configfile execFile
               folder prefix' template random)
          = Inr (None, None, None,
                 [toString e
                  @ (if truthy (e_stdout e) then [CHR 0x0A, CHR 0x0A] @ the (e_stdout e) else '''')
                  @ (if truthy (e_stderr e) then [CHR 0x0A, CHR 0x0A] @ the (e_stderr e) else '''')])
          \<and> toString e
             @ (if truthy (e_stdout e) then [CHR 0x0A, CHR 0x0A] @ the (e_stdout e) else '''')
             @ (if truthy (e_stderr e) then [CHR 0x0A, CHR 0x0A] @ the (e_stderr e) else '''')
            \<noteq> '''')"
  using assms toString_nonempty [of e]
  by (simp add: forester_new_def command_def getRoot_def Let_def truthy_def)

theorem command_executor_witness:
  "map_sum id (\<lambda>r. (result r, returned (run r), errorMessages (run r)))
     (forester_new [''/forest''] None None
        (\<lambda>path args cwd. ExecResolved (''trees/abc-0001.tree'' @ [CHR 0x0A]) '''')
        ''trees'' ''abc'' None False)
   = Inr (Some ''trees/abc-0001.tree'', Some (''trees/abc-0001.tree'' @ [CHR 0x0A]), [])
   \<and> map_sum id (\<lambda>r. (result r, opened r, returned (run r), errorMessages (run r)))
     (forester_new [''/forest''] None None
        (\<lambda>path args cwd. ExecRejected
           \<lparr>e_message = ''Command failed: forester new'', e_code = Some 1,
            e_stdout = Some '''', e_stderr = Some ''no such prefix''\<rparr>)
        ''trees'' ''abc'' None False)
   = Inr (None, None, None,
          [''Error: Command failed: forester new'' @ [CHR 0x0A, CHR 0x0A] @ ''no such prefix''])"
proof -
  have ws: "[''/forest''] = ''/forest'' # []" by simp
  have trimmed: "trim (''trees/abc-0001.tree'' @ [CHR 0x0A]) = ''trees/abc-0001.tree''"
    by (simp add: trim_def is_space_def)
  have ok: "map_sum id (\<lambda>r. (result r, returned (run r), errorMessages (run r)))
     (forester_new [''/forest''] None None
        (\<lambda>path args cwd. ExecResolved (''trees/abc-0001.tree'' @ [CHR 0x0A]) '''')
        ''trees'' ''abc'' None False)
   = Inr (Some ''trees/abc-0001.tree'', Some (''trees/abc-0001.tree'' @ [CHR 0x0A]), [])"
    using command_executor [OF ws, of "\<lambda>path args cwd. ExecResolved (''trees/abc-0001.tree'' @ [CHR 0x0A]) ''''"
        None None "''trees''" "''abc''" None False "''trees/abc-0001.tree'' @ [CHR 0x0A]"]
    by (simp only: trimmed simp_thms)
  have failed: "map_sum id (\<lambda>r. (result r, opened r, returned (run r), errorMessages (run r)))
     (forester_new [''/forest''] None None
        (\<lambda>path args cwd. ExecRejected
           \<lparr>e_message = ''Command failed: forester new'', e_code = Some 1,
            e_stdout = Some '''', e_stderr = Some ''no such prefix''\<rparr>)
        ''trees'' ''abc'' None False)
   = Inr (None, None, None,
          [''Error: Command failed: forester new'' @ [CHR 0x0A, CHR 0x0A] @ ''no such prefix''])"
    using command_executor [OF ws, of "\<lambda>path args cwd. ExecRejected
           \<lparr>e_message = ''Command failed: forester new'', e_code = Some 1,
            e_stdout = Some '''', e_stderr = Some ''no such prefix''\<rparr>"
        None None "''trees''" "''abc''" None False _
        "\<lparr>e_message = ''Command failed: forester new'', e_code = Some 1,
            e_stdout = Some '''', e_stderr = Some ''no such prefix''\<rparr>"]
    by (simp add: toString_def truthy_def)
  from ok failed show ?thesis by blast
qed

section \<open>Properties of suggest\<close>

lemma suggest_loop_map:
  "suggest_loop showID r trees results = results @ map (suggest_item showID r) trees"
  by (induction trees arbitrary: results) simp_all

lemma suggest_map: "suggest showID trees r = map (suggest_item showID r) trees"
  by (simp add: suggest_def suggest_loop_map)

text \<open>
  C7. For every forest and range, \<^verbatim>\<open>suggest\<close> returns one item per entry, in the order
  of the entries; the insertion text of each item is the \<^verbatim>\<open>uri\<close> of its entry and the
  range of each item is the range supplied.
\<close>

theorem suggest_one_per_entry:
  "length (suggest showID trees r) = length trees
   \<and> map insertText (suggest showID trees r) = map uri trees
   \<and> map item_range (suggest showID trees r) = replicate (length trees) r"
  by (simp add: suggest_map comp_def suggest_item_def Let_def map_replicate_const)

text \<open>
  C8 (as amended). The filter text of an item is the identifier, a space, the title or
  nothing, a space, the taxon or nothing: both spaces are there whether or not the title
  and the taxon are. When title and taxon are both present this is the text the
  specification describes, the three joined by single spaces.
\<close>

theorem suggest_filterText:
  "map filterText (suggest showID trees r) =
     map (\<lambda>entry. uri entry @ '' '' @ or_else (title entry) '''' @ '' ''
                      @ or_else (taxon entry) '''') trees
   \<and> (title entry = Some t \<and> taxon entry = Some x \<longrightarrow>
        map filterText (suggest showID [entry] r) = [uri entry @ '' '' @ t @ '' '' @ x]
        \<and> filterText_as_specified entry = uri entry @ '' '' @ t @ '' '' @ x)"
  by (simp add: suggest_map comp_def suggest_item_def Let_def or_else_def
      filterText_as_specified_def)

theorem suggest_filterText_witness:
  "map filterText
     (suggest False [\<lparr>title = Some ''Hello'', taxon = Some ''note'', tags = [], route = ''abc.xml'',
                      metas = [], sourcePath = ''trees/abc.tree'', uri = ''abc''\<rparr>] ((0, 2), (0, 4)))
   = [''abc Hello note'']
   \<and> filterText_as_specified
       \<lparr>title = Some ''Hello'', taxon = Some ''note'', tags = [], route = ''abc.xml'',
        metas = [], sourcePath = ''trees/abc.tree'', uri = ''abc''\<rparr> = ''abc Hello note''"
  using suggest_filterText [of False "[]" "((0, 2), (0, 4))"
      "\<lparr>title = Some ''Hello'', taxon = Some ''note'', tags = [], route = ''abc.xml'',
        metas = [], sourcePath = ''trees/abc.tree'', uri = ''abc''\<rparr>" "''Hello''" "''note''"]
  by (simp add: suggest_def)

theorem suggest_filterText_counterexample:
  "map filterText
     (suggest False [\<lparr>title = None, taxon = None, tags = [], route = ''abc.xml'',
                      metas = [], sourcePath = ''trees/abc.tree'', uri = ''abc''\<rparr>] ((0, 2), (0, 4)))
   = [''abc  '']
   \<and> filterText_as_specified
       \<lparr>title = None, taxon = None, tags = [], route = ''abc.xml'',
        metas = [], sourcePath = ''trees/abc.tree'', uri = ''abc''\<rparr> = ''abc''
   \<and> ''abc  '' \<noteq> ''abc''"
  by (simp add: suggest_def suggest_item_def Let_def or_else_def filterText_as_specified_def)


section \<open>Properties of the pattern and of the provider\<close>

lemma concat_map_if_singleton:
  "concat (map (\<lambda>x. if P x then [f x] else []) xs) = map f (filter P xs)"
  by (induction xs) auto

lemma filter_ge_rev_upt:
  "m \<le> n \<Longrightarrow> filter (\<lambda>k. n \<le> k) (rev [0..<Suc m]) = (if m = n then [n] else [])"
  by (induction m) auto

lemma takeWhile_full_iff:
  "length (takeWhile P s) = length s \<longleftrightarrow> (\<forall>x\<in>set s. P x)"
  by (induction s) auto

lemma rmatch_group_star_end:
  "rmatch (Seq (Group g (StarNot c)) EndOfInput) i s caps =
     (if c \<notin> set s then [(i + length s, [], AList.update g (i, i + length s) caps)] else [])"
proof -
  let ?m = "length (takeWhile (\<lambda>x. x \<noteq> c) s)"
  have m_le: "?m \<le> length s" by (rule length_takeWhile_le)
  have "rmatch (Seq (Group g (StarNot c)) EndOfInput) i s caps =
        concat (map (\<lambda>n. if length s \<le> n then [(i + n, drop n s, AList.update g (i, i + n) caps)] else [])
                    (rev [0..<Suc ?m]))"
    by (simp add: comp_def)
  also have "\<dots> = map (\<lambda>n. (i + n, drop n s, AList.update g (i, i + n) caps))
                      (filter (\<lambda>n. length s \<le> n) (rev [0..<Suc ?m]))"
    by (rule concat_map_if_singleton)
  also have "\<dots> = (if ?m = length s
                     then [(i + length s, [], AList.update g (i, i + length s) caps)] else [])"
    by (simp add: filter_ge_rev_upt [OF m_le] del: upt_Suc)
  also have "\<dots> = (if c \<notin> set s
                     then [(i + length s, [], AList.update g (i, i + length s) caps)] else [])"
    using takeWhile_full_iff [of "\<lambda>x. x \<noteq> c" s] by auto
  finally show ?thesis .
qed

lemma take_eq_iff_append: "take (length l) s = l \<longleftrightarrow> (\<exists>p. s = l @ p)"
  by (metis append_eq_conv_conj append_take_drop_id)

lemma rmatch_seq_lit:
  "rmatch (Seq (Lit l) r) i s caps =
     (if take (length l) s = l then rmatch r (i + length l) (drop (length l) s) caps else [])"
  by simp

lemma le_length_takeWhile_iff:
  "n \<le> length (takeWhile P xs) \<longleftrightarrow> n \<le> length xs \<and> (\<forall>x\<in>set (take n xs). P x)"
proof (induction xs arbitrary: n)
  case Nil
  show ?case by simp
next
  case (Cons x xs)
  show ?case by (cases n) (auto simp: Cons.IH)
qed

lemma command_alt_matches:
  "rmatch (Seq (Alt (Lit (backslash # ''transclude{''))
              (Alt (Lit (backslash # ''import{''))
              (Alt (Lit (backslash # ''export{''))
                   (Lit (backslash # ''ref{'')))))
          (Seq (Group 1 (StarNot CHR ''}'')) EndOfInput)) i s caps \<noteq> []
   \<longleftrightarrow> command_trigger s"
proof -
  have "command_trigger s \<longleftrightarrow>
        (\<exists>opener\<in>set command_openers. take (length opener) s = opener
            \<and> CHR ''}'' \<notin> set (drop (length opener) s))"
    unfolding command_trigger_def
    by (metis append_eq_conv_conj append_take_drop_id)
  also have "\<dots> \<longleftrightarrow> rmatch (Seq (Alt (Lit (backslash # ''transclude{''))
              (Alt (Lit (backslash # ''import{''))
              (Alt (Lit (backslash # ''export{''))
                   (Lit (backslash # ''ref{'')))))
          (Seq (Group 1 (StarNot CHR ''}'')) EndOfInput)) i s caps \<noteq> []"
    by (subst rmatch.simps(4))
       (simp add: rmatch_group_star_end command_openers_def del: rmatch.simps(4))
  finally show ?thesis by simp
qed

lemma wiki_alt_matches:
  "rmatch (Seq (Lit ''[['') (Seq (Group 3 (StarNot CHR '']'')) EndOfInput)) i s caps \<noteq> []
   \<longleftrightarrow> wiki_trigger s"
proof -
  have "wiki_trigger s \<longleftrightarrow> take (length ''[['') s = ''[['' \<and> CHR '']'' \<notin> set (drop (length ''[['') s)"
    unfolding wiki_trigger_def
    by (metis append_eq_conv_conj append_take_drop_id)
  then show ?thesis
    by (simp only: rmatch_seq_lit rmatch_group_star_end) auto
qed

lemma markdown_alt_matches:
  "rmatch (Seq (Lit ''['') (Seq (StarNot CHR ''['') (Seq (Lit '']('')
          (Seq (Group 2 (StarNot CHR '')'')) EndOfInput)))) i s caps \<noteq> []
   \<longleftrightarrow> markdown_trigger s"
proof -
  let ?tail = "Seq (Lit '']('') (Seq (Group 2 (StarNot CHR '')'')) EndOfInput)"
  have tail: "rmatch ?tail j t caps' \<noteq> [] \<longleftrightarrow>
              (\<exists>p. t = '']('' @ p \<and> CHR '')'' \<notin> set p)" for j t caps'
  proof -
    have "(\<exists>p. t = '']('' @ p \<and> CHR '')'' \<notin> set p) \<longleftrightarrow>
          take (length '']('') t = '']('' \<and> CHR '')'' \<notin> set (drop (length '']('') t)"
      by (metis append_eq_conv_conj append_take_drop_id)
    then show ?thesis
      by (simp only: rmatch_seq_lit rmatch_group_star_end) auto
  qed
  have star: "rmatch (Seq (StarNot CHR ''['') ?tail) j t caps' \<noteq> [] \<longleftrightarrow>
              (\<exists>a p. t = a @ '']('' @ p \<and> CHR ''['' \<notin> set a \<and> CHR '')'' \<notin> set p)" for j t caps'
  proof -
    let ?m = "length (takeWhile (\<lambda>x. x \<noteq> CHR ''['') t)"
    have "rmatch (Seq (StarNot CHR ''['') ?tail) j t caps' =
          concat (map (\<lambda>n. rmatch ?tail (j + n) (drop n t) caps') (rev [0..<Suc ?m]))"
      by (subst rmatch.simps(4), subst rmatch.simps(2)) (simp add: comp_def del: rmatch.simps upt_Suc)
    then have "rmatch (Seq (StarNot CHR ''['') ?tail) j t caps' \<noteq> [] \<longleftrightarrow>
          (\<exists>n\<le>?m. rmatch ?tail (j + n) (drop n t) caps' \<noteq> [])"
      by (auto simp del: rmatch.simps upt_Suc simp: less_Suc_eq_le)
    also have "\<dots> \<longleftrightarrow> (\<exists>n\<le>?m. \<exists>p. drop n t = '']('' @ p \<and> CHR '')'' \<notin> set p)"
      by (simp only: tail)
    also have "\<dots> \<longleftrightarrow> (\<exists>a p. t = a @ '']('' @ p \<and> CHR ''['' \<notin> set a \<and> CHR '')'' \<notin> set p)"
    proof
      assume "\<exists>n\<le>?m. \<exists>p. drop n t = '']('' @ p \<and> CHR '')'' \<notin> set p"
      then obtain n p where n: "n \<le> ?m" and p: "drop n t = '']('' @ p" "CHR '')'' \<notin> set p"
        by blast
      from n have "\<forall>x\<in>set (take n t). x \<noteq> CHR ''[''"
        by (simp add: le_length_takeWhile_iff)
      moreover have "t = take n t @ '']('' @ p"
        using p(1) by (metis append_take_drop_id)
      ultimately show "\<exists>a p. t = a @ '']('' @ p \<and> CHR ''['' \<notin> set a \<and> CHR '')'' \<notin> set p"
        using p(2) by blast
    next
      assume "\<exists>a p. t = a @ '']('' @ p \<and> CHR ''['' \<notin> set a \<and> CHR '')'' \<notin> set p"
      then obtain a p where t: "t = a @ '']('' @ p" and a: "CHR ''['' \<notin> set a"
        and p: "CHR '')'' \<notin> set p" by blast
      have "length a \<le> ?m"
        using a by (auto simp: le_length_takeWhile_iff t)
      moreover have "drop (length a) t = '']('' @ p" by (simp add: t)
      ultimately show "\<exists>n\<le>?m. \<exists>p. drop n t = '']('' @ p \<and> CHR '')'' \<notin> set p"
        using p by blast
    qed
    finally show ?thesis .
  qed
  let ?link = "Seq (StarNot CHR ''['') ?tail"
  have md: "markdown_trigger s \<longleftrightarrow>
        take (length ''['') s = ''['' \<and>
        (\<exists>a p. drop (length ''['') s = a @ '']('' @ p \<and> CHR ''['' \<notin> set a \<and> CHR '')'' \<notin> set p)"
    unfolding markdown_trigger_def
    by (metis append_eq_conv_conj append_take_drop_id)
  have outer: "rmatch (Seq (Lit ''['') ?link) i s caps =
        (if take (length ''['') s = ''[''
         then rmatch ?link (i + length ''['') (drop (length ''['') s) caps else [])"
    by (rule rmatch_seq_lit)
  have "rmatch (Seq (Lit ''['') ?link) i s caps \<noteq> [] \<longleftrightarrow>
        take (length ''['') s = ''['' \<and>
        rmatch ?link (i + length ''['') (drop (length ''['') s) caps \<noteq> []"
    by (subst outer) (simp del: rmatch.simps)
  also have "\<dots> \<longleftrightarrow> take (length ''['') s = ''['' \<and>
        (\<exists>a p. drop (length ''['') s = a @ '']('' @ p \<and> CHR ''['' \<notin> set a \<and> CHR '')'' \<notin> set p)"
    by (simp only: star)
  also have "\<dots> \<longleftrightarrow> markdown_trigger s"
    by (simp only: md)
  finally show ?thesis .
qed

lemma tagPattern_matches:
  "rmatch tagPattern i s caps \<noteq> [] \<longleftrightarrow> command_trigger s \<or> markdown_trigger s \<or> wiki_trigger s"
  unfolding tagPattern_def
  by (subst rmatch.simps(5), subst rmatch.simps(5))
     (simp only: append_is_Nil_conv de_Morgan_conj command_alt_matches markdown_alt_matches
        wiki_alt_matches)

lemma exec_from_None_iff:
  "exec_from re i s = None \<longleftrightarrow> (\<forall>k\<le>length s. rmatch re (i + k) (drop k s) [] = [])"
proof (induction s arbitrary: i)
  case Nil
  show ?case by (simp split: list.splits)
next
  case (Cons c cs)
  have "(\<forall>k\<le>length (c # cs). rmatch re (i + k) (drop k (c # cs)) [] = []) \<longleftrightarrow>
        rmatch re i (c # cs) [] = [] \<and> (\<forall>k\<le>length cs. rmatch re (Suc i + k) (drop k cs) [] = [])"
  proof
    assume all: "\<forall>k\<le>length (c # cs). rmatch re (i + k) (drop k (c # cs)) [] = []"
    then have "rmatch re (i + 0) (drop 0 (c # cs)) [] = []" by blast
    moreover have "rmatch re (Suc i + k) (drop k cs) [] = []" if "k \<le> length cs" for k
      using all that by (metis Suc_le_mono add_Suc_shift drop_Suc_Cons length_Cons)
    ultimately show "rmatch re i (c # cs) [] = [] \<and>
        (\<forall>k\<le>length cs. rmatch re (Suc i + k) (drop k cs) [] = [])" by simp
  next
    assume h: "rmatch re i (c # cs) [] = [] \<and>
        (\<forall>k\<le>length cs. rmatch re (Suc i + k) (drop k cs) [] = [])"
    show "\<forall>k\<le>length (c # cs). rmatch re (i + k) (drop k (c # cs)) [] = []"
    proof (intro allI impI)
      fix k assume "k \<le> length (c # cs)"
      then show "rmatch re (i + k) (drop k (c # cs)) [] = []"
        using h by (cases k) auto
    qed
  qed
  then show ?case
    by (simp add: Cons.IH split: list.splits del: rmatch.simps)
qed

lemma exec_None_iff: "exec tagPattern text = None \<longleftrightarrow> \<not> trigger_in_progress text"
proof -
  have "trigger_in_progress text \<longleftrightarrow>
        (\<exists>k\<le>length text. rmatch tagPattern k (drop k text) [] \<noteq> [])"
  proof
    assume "trigger_in_progress text"
    then obtain pre s where "text = pre @ s"
      and "command_trigger s \<or> markdown_trigger s \<or> wiki_trigger s"
      unfolding trigger_in_progress_def by blast
    then have "length pre \<le> length text \<and> rmatch tagPattern (length pre) (drop (length pre) text) [] \<noteq> []"
      by (simp add: tagPattern_matches)
    then show "\<exists>k\<le>length text. rmatch tagPattern k (drop k text) [] \<noteq> []" by blast
  next
    assume "\<exists>k\<le>length text. rmatch tagPattern k (drop k text) [] \<noteq> []"
    then obtain k where "rmatch tagPattern k (drop k text) [] \<noteq> []" by blast
    then have "command_trigger (drop k text) \<or> markdown_trigger (drop k text) \<or> wiki_trigger (drop k text)"
      by (simp only: tagPattern_matches)
    moreover have "text = take k text @ drop k text" by simp
    ultimately show "trigger_in_progress text"
      unfolding trigger_in_progress_def by blast
  qed
  then show ?thesis
    by (simp add: exec_def exec_from_None_iff)
qed

lemma matches_at_iff:
  "matches_at text k \<longleftrightarrow>
     command_trigger (drop k text) \<or> markdown_trigger (drop k text) \<or> wiki_trigger (drop k text)"
  by (simp only: matches_at_def tagPattern_matches)

lemma exec_from_skip:
  "list_all (\<lambda>k. rmatch re (i + k) (drop k (pre @ t)) [] = []) [0..<length pre] \<Longrightarrow>
   exec_from re i (pre @ t) = exec_from re (i + length pre) t"
proof (induction pre arbitrary: i)
  case Nil
  show ?case by simp
next
  case (Cons c pre)
  from Cons.prems have all: "\<forall>k<Suc (length pre). rmatch re (i + k) (drop k (c # pre @ t)) [] = []"
    by (simp add: list_all_iff del: upt_Suc)
  from all have here: "rmatch re i (c # pre @ t) [] = []"
    by (metis add.right_neutral drop0 zero_less_Suc)
  have "\<forall>k<length pre. rmatch re (Suc i + k) (drop k (pre @ t)) [] = []"
  proof (intro allI impI)
    fix k assume "k < length pre"
    then have "Suc k < Suc (length pre)" by simp
    with all have "rmatch re (i + Suc k) (drop (Suc k) (c # pre @ t)) [] = []" by blast
    then show "rmatch re (Suc i + k) (drop k (pre @ t)) [] = []" by simp
  qed
  then have "list_all (\<lambda>k. rmatch re (Suc i + k) (drop k (pre @ t)) [] = []) [0..<length pre]"
    by (simp add: list_all_iff)
  from Cons.IH [OF this] here show ?case by simp
qed

lemma exec_from_first:
  "rmatch re i s [] = (j, t, caps) # alts \<Longrightarrow> exec_from re i s = Some (i, j, caps)"
  by (cases s) simp_all

lemma rmatch_opener:
  assumes "opener \<in> set command_openers" and "CHR ''}'' \<notin> set p"
  shows "\<exists>alts. rmatch tagPattern i (opener @ p) [] =
           (i + length opener + length p, [],
            [(1, i + length opener, i + length opener + length p)]) # alts"
proof -
  let ?tail = "Seq (Group 1 (StarNot CHR ''}'')) EndOfInput"
  let ?lits = "Alt (Lit (backslash # ''transclude{''))
              (Alt (Lit (backslash # ''import{''))
              (Alt (Lit (backslash # ''export{''))
                   (Lit (backslash # ''ref{''))))"
  have lits: "rmatch ?lits i (opener @ p) [] = [(i + length opener, p, [])]"
    using assms(1) by (auto simp: command_openers_def backslash_def)
  have tail: "rmatch ?tail (i + length opener) p [] =
              [(i + length opener + length p, [],
                [(1, i + length opener, i + length opener + length p)])]"
    using assms(2) by (simp only: rmatch_group_star_end) simp
  have "rmatch (Seq ?lits ?tail) i (opener @ p) [] =
        concat (map (\<lambda>(j, t, caps'). rmatch ?tail j t caps') (rmatch ?lits i (opener @ p) []))"
    by (rule rmatch.simps(4))
  also have "\<dots> = [(i + length opener + length p, [],
                      [(1, i + length opener, i + length opener + length p)])]"
    by (simp only: lits tail list.map concat.simps case_prod_conv append_Nil2)
  finally have first: "rmatch (Seq ?lits ?tail) i (opener @ p) [] =
      [(i + length opener + length p, [],
        [(1, i + length opener, i + length opener + length p)])]" .
  show ?thesis
    unfolding tagPattern_def by (subst rmatch.simps(5)) (simp only: first append_Cons, blast)
qed


lemma match_ix_group1:
  "exec tagPattern text = Some (index, end', [(1, start, stop)]) \<Longrightarrow>
   match_ix text character = Some start"
  by (simp add: match_ix_def)

lemma provider_match_range:
  "provideCompletionItems showID forest lineText pos =
     (case match_range lineText pos of
        None \<Rightarrow> ([], [])
      | Some range' \<Rightarrow> (suggest showID forest range', [GetForest True]))"
  by (simp add: provideCompletionItems_def match_range_def Let_def split: option.splits)

text \<open>
  C4 (as amended). For the line \<open>see \ref{ab\<close> with the cursor at its end the provider
  asks for the forest and gives every item the range from index 9, right after the brace, to
  the cursor at 11, which covers exactly \<open>ab\<close>. In general, when the text up to the cursor
  is some text, one of the four commands with its brace, and a partial text without a closing
  brace, and the pattern has no match that starts before that command, the provider gives
  every item the range from right after the brace to the cursor, which covers exactly the
  partial text.
\<close>

theorem command_partial_text:
  assumes "opener \<in> set command_openers"
    and "CHR ''}'' \<notin> set partial"
    and "list_all (\<lambda>k. \<not> matches_at (pre @ opener @ partial) k) [0..<length pre]"
  shows "provideCompletionItems showID forest (pre @ opener @ partial)
           (line, length (pre @ opener @ partial)) =
           (suggest showID forest
              ((line, length pre + length opener), (line, length (pre @ opener @ partial))),
            [GetForest True])
         \<and> match_range (pre @ opener @ partial) (line, length (pre @ opener @ partial)) =
           Some ((line, length pre + length opener), (line, length (pre @ opener @ partial)))
         \<and> covered (pre @ opener @ partial)
             ((line, length pre + length opener), (line, length (pre @ opener @ partial)))
           = partial
         \<and> provideCompletionItems showID forest (''see '' @ backslash # ''ref{ab'') (line, 11) =
           (suggest showID forest ((line, 9), (line, 11)), [GetForest True])
         \<and> match_range (''see '' @ backslash # ''ref{ab'') (line, 11) = Some ((line, 9), (line, 11))
         \<and> covered (''see '' @ backslash # ''ref{ab'') ((line, 9), (line, 11)) = ''ab''"
proof -
  let ?text = "pre @ opener @ partial"
  have "list_all (\<lambda>k. rmatch tagPattern (0 + k) (drop k (pre @ (opener @ partial))) [] = [])
          [0..<length pre]"
    using assms(3) by (simp add: matches_at_def)
  then have skip: "exec_from tagPattern 0 (pre @ (opener @ partial)) =
                   exec_from tagPattern (0 + length pre) (opener @ partial)"
    by (rule exec_from_skip)
  obtain alts where
    "rmatch tagPattern (length pre) (opener @ partial) [] =
       (length pre + length opener + length partial, [],
        [(1, length pre + length opener, length pre + length opener + length partial)]) # alts"
    using rmatch_opener [OF assms(1,2)] by blast
  then have "exec_from tagPattern (length pre) (opener @ partial) =
             Some (length pre, length pre + length opener + length partial,
                   [(1, length pre + length opener, length pre + length opener + length partial)])"
    by (rule exec_from_first)
  with skip have "exec tagPattern ?text =
             Some (length pre, length pre + length opener + length partial,
                   [(1, length pre + length opener, length pre + length opener + length partial)])"
    by (simp add: exec_def)
  then have ix: "match_ix ?text (length ?text) = Some (length pre + length opener)"
    by (rule match_ix_group1)
  have general: "match_range ?text (line, length ?text) =
           Some ((line, length pre + length opener), (line, length ?text))"
    using ix by (simp add: match_range_def)
  have provider: "provideCompletionItems showID forest ?text (line, length ?text) =
           (suggest showID forest ((line, length pre + length opener), (line, length ?text)),
            [GetForest True])"
    by (simp only: provider_match_range general option.case)
  have cov: "covered ?text ((line, length pre + length opener), (line, length ?text)) = partial"
    by (simp add: covered_def)
  have ex1: "match_range (''see '' @ backslash # ''ref{ab'') (line, 11) = Some ((line, 9), (line, 11))"
    by (simp add: match_range_def match_ix_def exec_def tagPattern_def backslash_def)
  have ex0: "provideCompletionItems showID forest (''see '' @ backslash # ''ref{ab'') (line, 11) =
           (suggest showID forest ((line, 9), (line, 11)), [GetForest True])"
    by (simp only: provider_match_range ex1 option.case)
  have ex2: "covered (''see '' @ backslash # ''ref{ab'') ((line, 9), (line, 11)) = ''ab''"
    by (simp add: covered_def)
  from provider general cov ex0 ex1 ex2 show ?thesis by blast
qed

theorem command_partial_text_witness:
  "backslash # ''ref{'' \<in> set command_openers \<and> CHR ''}'' \<notin> set ''b''
   \<and> list_all (\<lambda>k. \<not> matches_at ((backslash # ''ref{a} '') @ (backslash # ''ref{'') @ ''b'') k)
        [0..<length (backslash # ''ref{a} '')]
   \<and> provideCompletionItems False [] ((backslash # ''ref{a} '') @ (backslash # ''ref{'') @ ''b'')
        (0, 14)
      = (suggest False [] ((0, 13), (0, 14)), [GetForest True])
   \<and> match_range ((backslash # ''ref{a} '') @ (backslash # ''ref{'') @ ''b'') (0, 14)
      = Some ((0, 13), (0, 14))
   \<and> covered ((backslash # ''ref{a} '') @ (backslash # ''ref{'') @ ''b'') ((0, 13), (0, 14))
      = ''b''"
proof -
  have h1: "backslash # ''ref{'' \<in> set command_openers"
    by (simp add: command_openers_def)
  have h2: "CHR ''}'' \<notin> set ''b''" by simp
  have h3: "list_all (\<lambda>k. \<not> matches_at ((backslash # ''ref{a} '') @ (backslash # ''ref{'') @ ''b'') k)
        [0..<length (backslash # ''ref{a} '')]"
    by (simp add: matches_at_def tagPattern_def backslash_def upt_conv_Cons)
  have len: "length ((backslash # ''ref{a} '') @ (backslash # ''ref{'') @ ''b'') = 14"
    by simp
  have len': "length (backslash # ''ref{a} '') + length (backslash # ''ref{'') = 13"
    by simp
  from command_partial_text [OF h1 h2 h3, of False "[]" 0]
  have "provideCompletionItems False [] ((backslash # ''ref{a} '') @ (backslash # ''ref{'') @ ''b'')
          (0, 14)
          = (suggest False [] ((0, 13), (0, 14)), [GetForest True])
        \<and> match_range ((backslash # ''ref{a} '') @ (backslash # ''ref{'') @ ''b'') (0, 14)
          = Some ((0, 13), (0, 14))
        \<and> covered ((backslash # ''ref{a} '') @ (backslash # ''ref{'') @ ''b'')
            ((0, 13), (0, 14)) = ''b''"
    unfolding len len' by blast
  with h1 h2 h3 show ?thesis by blast
qed

theorem command_partial_text_counterexample:
  "map item_range
     (fst (provideCompletionItems False
        [\<lparr>title = None, taxon = None, tags = [], route = ''abc.xml'', metas = [],
          sourcePath = ''trees/abc.tree'', uri = ''abc''\<rparr>]
        (''[x]('' @ backslash # ''ref{ab'') (0, 11)))
     = [((0, 4), (0, 11))]
   \<and> match_range (''[x]('' @ backslash # ''ref{ab'') (0, 11) = Some ((0, 4), (0, 11))
   \<and> covered (''[x]('' @ backslash # ''ref{ab'') ((0, 4), (0, 11)) = backslash # ''ref{ab''
   \<and> backslash # ''ref{ab'' \<noteq> ''ab''"
  by (simp add: provideCompletionItems_def suggest_def suggest_item_def Let_def
      match_range_def match_ix_def exec_def tagPattern_def backslash_def covered_def)

text \<open>
  C5. With the cursor at the end of the line, for \<open>[[partial\<close> the provider asks for the
  forest and gives every item the range 2 to 9, which covers \<open>partial\<close>; for
  \<open>[text](par\<close> it gives every item the range 7 to 10, which covers \<open>par\<close>; for
  \<open>no trigger here\<close> there is no match and the provider returns no item.
\<close>

theorem link_partial_text:
  "provideCompletionItems showID forest ''[[partial'' (line, 9) =
     (suggest showID forest ((line, 2), (line, 9)), [GetForest True])
   \<and> provideCompletionItems showID forest ''[text](par'' (line, 10) =
     (suggest showID forest ((line, 7), (line, 10)), [GetForest True])
   \<and> match_range ''[[partial'' (line, 9) = Some ((line, 2), (line, 9))
   \<and> covered ''[[partial'' ((line, 2), (line, 9)) = ''partial''
   \<and> match_range ''[text](par'' (line, 10) = Some ((line, 7), (line, 10))
   \<and> covered ''[text](par'' ((line, 7), (line, 10)) = ''par''
   \<and> match_range ''no trigger here'' (line, 15) = None
   \<and> provideCompletionItems showID forest ''no trigger here'' (line, 15) = ([], [])"
proof -
  have wiki: "match_range ''[[partial'' (line, 9) = Some ((line, 2), (line, 9))"
    by (simp add: match_range_def match_ix_def exec_def tagPattern_def backslash_def)
  have md: "match_range ''[text](par'' (line, 10) = Some ((line, 7), (line, 10))"
    by (simp add: match_range_def match_ix_def exec_def tagPattern_def backslash_def)
  have none: "match_range ''no trigger here'' (line, 15) = None"
    by (simp add: match_range_def match_ix_def exec_def tagPattern_def backslash_def)
  have p1: "provideCompletionItems showID forest ''[[partial'' (line, 9) =
     (suggest showID forest ((line, 2), (line, 9)), [GetForest True])"
    by (simp only: provider_match_range wiki option.case)
  have p2: "provideCompletionItems showID forest ''[text](par'' (line, 10) =
     (suggest showID forest ((line, 7), (line, 10)), [GetForest True])"
    by (simp only: provider_match_range md option.case)
  have p3: "provideCompletionItems showID forest ''no trigger here'' (line, 15) = ([], [])"
    by (simp only: provider_match_range none option.case)
  have c1: "covered ''[[partial'' ((line, 2), (line, 9)) = ''partial''"
    by (simp add: covered_def)
  have c2: "covered ''[text](par'' ((line, 7), (line, 10)) = ''par''"
    by (simp add: covered_def)
  from p1 p2 wiki c1 md c2 none p3 show ?thesis by blast
qed

text \<open>
  C10. When none of the three trigger syntaxes is in progress in the text from the start of
  the line to the cursor, the provider returns the empty list and makes no call to the
  forest cache.
\<close>

theorem no_match_no_query:
  assumes "\<not> trigger_in_progress (take (snd pos) lineText)"
  shows "provideCompletionItems showID forest lineText pos = ([], [])"
proof -
  from assms have "exec tagPattern (take (snd pos) lineText) = None"
    by (rule exec_None_iff [THEN iffD2])
  then show ?thesis
    by (simp add: provideCompletionItems_def match_ix_def)
qed

theorem no_match_no_query_witness:
  "\<not> trigger_in_progress (take (snd (0, 15)) ''no trigger here'')
   \<and> provideCompletionItems True [] ''no trigger here'' (0, 15) = ([], [])"
proof -
  have "exec tagPattern (take (snd (0::nat, 15::nat)) ''no trigger here'') = None"
    by (simp add: exec_def tagPattern_def backslash_def)
  then have h: "\<not> trigger_in_progress (take (snd (0::nat, 15::nat)) ''no trigger here'')"
    by (rule exec_None_iff [THEN iffD1])
  from no_match_no_query [OF h, where showID = True and forest = "[]"] h
  show ?thesis by simp
qed

end
